theory Spec2Isabelle
  imports Main
begin

section \<open>Data model of the conversation list\<close>

text \<open>
  The conversation list component (CometChatConversations.tsx) keeps an ordered list of
  conversation objects and reacts to SDK and UI events.  The objects are JavaScript
  objects that the handlers share by reference, so the model keeps them in an explicit
  object heap: an address is an index into the heap, the list and the selection hold
  addresses, a setter updates a heap cell and \<open>CommonUtils.clone\<close> allocates a new one.
  The opposing party and the last message are held by value inside the conversation.
\<close>

datatype receiver_type = ReceiverType_user | ReceiverType_group

datatype category = Cat_message | Cat_custom | Cat_action | Cat_call | Cat_interactive

datatype js_error = TypeError | CometChatException string

record chat_user =
  uid :: string
  user_name :: string
  blockedByMe :: bool
  hasBlockedMe :: bool

record chat_group =
  guid :: string
  group_name :: string
  scope :: "string option"

datatype party = User chat_user | Group chat_group

text \<open>
  A message as the handlers read it.  \<open>m_id\<close> is \<open>getId()\<close> (the property \<open>id\<close>),
  \<open>m_messageId\<close> the raw property \<open>messageId\<close> that only some objects carry, \<open>typing\<close>
  the ephemeral property the typing handler writes on the last message.  An absent
  (undefined) property is \<open>None\<close>.
\<close>

record message =
  m_id :: int
  m_messageId :: "int option"
  parentMessageId :: "int option"
  category :: category
  receiverType :: receiver_type
  sender :: chat_user
  m_conversationId :: string
  willUpdateConversation :: bool
  metadata :: "(string \<times> bool) list option"
  readAt :: "int option"
  deliveredAt :: "int option"
  typing :: "string option"

record conversation =
  conversationId :: string
  conversationWith :: party
  lastMessage :: "message option"
  unreadMessageCount :: int

text \<open>The SDK derives the conversation type from the kind of the opposing party.\<close>

definition getConversationType :: "conversation \<Rightarrow> receiver_type" where
  "getConversationType c =
     (case conversationWith c of User _ \<Rightarrow> ReceiverType_user | Group _ \<Rightarrow> ReceiverType_group)"

text \<open>The four toggles of \<open>CometChatUIKit.getConversationUpdateSettings()\<close>.\<close>

record settings =
  shouldUpdateOnMessageReplies :: bool
  shouldUpdateOnCustomMessages :: bool
  shouldUpdateOnGroupActions :: bool
  shouldUpdateOnCallActivities :: bool

text \<open>JavaScript truthiness of an optional number and of an optional string.\<close>

definition truthy_num :: "int option \<Rightarrow> bool" where
  "truthy_num v = (case v of None \<Rightarrow> False | Some n \<Rightarrow> n \<noteq> 0)"

definition truthy_str :: "string option \<Rightarrow> bool" where
  "truthy_str v = (case v of None \<Rightarrow> False | Some t \<Rightarrow> t \<noteq> [])"

subsection \<open>The unread count is a JavaScript number\<close>

text \<open>
  \<open>getUnreadMessageCount() + 1\<close> is an addition of IEEE doubles.  The count holds an
  integer, so the model keeps it as an \<open>int\<close> and rounds the sum as the addition does:
  to the nearest double, a tie to the one with the even 53-bit significand.
  \<open>spacing m u\<close> doubles \<open>u\<close> until it is the distance between neighbouring doubles at
  magnitude \<open>m\<close> (1 below \<open>2^53\<close>, 2 below \<open>2^54\<close>, ...).
\<close>

function spacing :: "int \<Rightarrow> int \<Rightarrow> int" where
  "spacing m u = (if 0 < u \<and> 2 ^ 53 * u \<le> m then spacing m (2 * u) else u)"
  by pat_completeness auto
termination
  by (relation "measure (\<lambda>(m, u). nat (m - u))") auto

declare spacing.simps [simp del]

definition round_to_double :: "int \<Rightarrow> int" where
  "round_to_double x =
     (let m = \<bar>x\<bar>;
          u = spacing m 1;
          q = m div u;
          r = m mod u;
          q1 = (if u < 2 * r \<or> (2 * r = u \<and> odd q) then q + 1 else q)
      in sgn x * (q1 * u))"

definition js_add1 :: "int \<Rightarrow> int" where
  "js_add1 n = round_to_double (n + 1)"

section \<open>Update policy\<close>

text \<open>
  \<open>getMetadata() && getMetadata()["incrementUnreadCount"]\<close>: the metadata object, when
  there is one, maps a key to the truthiness of its value.
\<close>

definition incrementUnreadCount_flag :: "message \<Rightarrow> bool" where
  "incrementUnreadCount_flag m =
     (case metadata m of
        None \<Rightarrow> False
      | Some kv \<Rightarrow> (case map_of kv ''incrementUnreadCount'' of None \<Rightarrow> False | Some b \<Rightarrow> b))"

definition shouldUpdateLastMessageAndUnreadCount :: "settings \<Rightarrow> message \<Rightarrow> bool" where
  "shouldUpdateLastMessageAndUnreadCount st m =
     (if truthy_num (parentMessageId m) \<and> \<not> shouldUpdateOnMessageReplies st then False
      else if category m = Cat_custom \<and> \<not> willUpdateConversation m
              \<and> \<not> incrementUnreadCount_flag m \<and> \<not> shouldUpdateOnCustomMessages st then False
      else if category m = Cat_action \<and> receiverType m = ReceiverType_group
           then shouldUpdateOnGroupActions st
      else if category m = Cat_call \<and> \<not> shouldUpdateOnCallActivities st then False
      else True)"

section \<open>Component state\<close>

datatype selection_mode = SelectionMode_none | SelectionMode_single | SelectionMode_multiple

text \<open>
  The props the handlers read: whether an \<open>onError\<close> and an \<open>onItemPress\<close> callback
  were passed, the selection mode, and whether the request builder was given and asks
  for blocked users (\<open>conversationsRequestBuilder && build().isIncludeBlockedUsers()\<close>).
\<close>

record props =
  onError :: bool
  onItemPress :: bool
  selectionMode :: selection_mode
  includeBlockedUsers :: bool

text \<open>The second argument of \<open>groupHandler\<close>; an absent property is \<open>None\<close>.\<close>

record otherDetails =
  action :: "string option"
  actionOn :: "chat_user option"
  actionBy :: "chat_user option"
  group_arg :: "chat_group option"
  newScope :: "string option"
  oldScope :: "string option"

text \<open>
  The registrations of the mount effect: three listeners on the SDK (\<open>CometChat\<close>) and
  five on \<open>CometChatUIEventHandler\<close>, each under the id constant of its kind.
\<close>

datatype listener =
    SDK_UserListener | SDK_CallListener | SDK_GroupListener
  | UI_ConversationListener | UI_MessageListener | UI_GroupListener | UI_UserListener
  | UI_CallListener

text \<open>
  The state of a mounted component.  \<open>heap\<close> holds the conversation objects, \<open>items\<close>
  is the list held by the CometChatList behind \<open>conversationListRef\<close> (addresses, in
  display order), \<open>selecting\<close> and \<open>selectedConversation\<close> are the two React states,
  \<open>loggedInUser\<close> the ref of that name, \<open>timer\<close> the task scheduled by the member-added
  debounce.  The remaining fields record what leaves the component: calls of the
  \<open>onError\<close> and \<open>onItemPress\<close> callbacks, \<open>console.log\<close> of an error, rejections no
  handler catches, and \<open>ccConversationDeleted\<close> events emitted.
\<close>

record state =
  heap :: "conversation list"
  items :: "nat list"
  selecting :: bool
  selectedConversation :: "nat list"
  loggedInUser :: "chat_user option"
  listeners :: "listener list"
  timer :: "(message \<times> otherDetails) option"
  onErrorCalls :: "js_error list"
  onItemPressCalls :: "nat list"
  console :: "js_error list"
  unhandled :: "js_error list"
  emitted :: "nat list"

subsection \<open>Objects\<close>

definition get_obj :: "state \<Rightarrow> nat \<Rightarrow> conversation" where
  "get_obj s a = heap s ! a"

definition set_obj :: "nat \<Rightarrow> conversation \<Rightarrow> state \<Rightarrow> state" where
  "set_obj a c s = s\<lparr>heap := (heap s)[a := c]\<rparr>"

text \<open>A new object gets the next free address, \<open>new_ref\<close>.\<close>

definition new_ref :: "state \<Rightarrow> nat" where
  "new_ref s = length (heap s)"

definition alloc :: "conversation \<Rightarrow> state \<Rightarrow> state" where
  "alloc c s = s\<lparr>heap := heap s @ [c]\<rparr>"

text \<open>
  Modelled from the spec: \<open>CommonUtils.clone\<close> (shared/utils, not among the sources) is
  the "ad hoc deep clone" of the spec: a new object with the same field values, sharing
  nothing with its argument.  The clone of the object at \<open>a\<close> is at \<open>new_ref s\<close>.
\<close>

definition clone :: "nat \<Rightarrow> state \<Rightarrow> state" where
  "clone a s = alloc (get_obj s a) s"

definition getConversationId :: "state \<Rightarrow> nat \<Rightarrow> string" where
  "getConversationId s a = conversationId (get_obj s a)"

definition setLastMessage :: "nat \<Rightarrow> message \<Rightarrow> state \<Rightarrow> state" where
  "setLastMessage a m s = set_obj a ((get_obj s a)\<lparr>lastMessage := Some m\<rparr>) s"

definition setUnreadMessageCount :: "nat \<Rightarrow> int \<Rightarrow> state \<Rightarrow> state" where
  "setUnreadMessageCount a n s = set_obj a ((get_obj s a)\<lparr>unreadMessageCount := n\<rparr>) s"

definition setConversationWith :: "nat \<Rightarrow> party \<Rightarrow> state \<Rightarrow> state" where
  "setConversationWith a w s = set_obj a ((get_obj s a)\<lparr>conversationWith := w\<rparr>) s"

subsection \<open>The conversation store\<close>

text \<open>\<open>Array.prototype.findIndex\<close> (\<open>None\<close> for -1) and \<open>splice(i, 1)\<close>.\<close>

fun findIndex :: "('a \<Rightarrow> bool) \<Rightarrow> 'a list \<Rightarrow> nat option" where
  "findIndex P [] = None"
| "findIndex P (x # xs) = (if P x then Some 0 else map_option Suc (findIndex P xs))"

definition splice1 :: "nat \<Rightarrow> 'a list \<Rightarrow> 'a list" where
  "splice1 i xs = take i xs @ drop (Suc i) xs"

text \<open>
  Modelled from the spec: the list operations of CometChatList (shared/views, not among
  the sources), keyed by \<open>listItemKey = "conversationId"\<close>, as section 4.1 of the spec
  gives them: \<open>get(id)\<close> returns the record or absent; \<open>getAll()\<close> the current order;
  \<open>add(record, atIndex)\<close> inserts; \<open>update(record)\<close> replaces the record with matching
  id in place; \<open>updateAndMoveToFront(record)\<close> replaces and relocates to index 0;
  \<open>remove(id)\<close> removes if present and is a no-op otherwise.  "The record with matching
  id" is the first one in list order.
\<close>

definition getListItem :: "state \<Rightarrow> string \<Rightarrow> nat option" where
  "getListItem s k = find (\<lambda>b. getConversationId s b = k) (items s)"

definition getAllListItems :: "state \<Rightarrow> nat list" where
  "getAllListItems s = items s"

definition addItemToList :: "nat \<Rightarrow> nat \<Rightarrow> state \<Rightarrow> state" where
  "addItemToList a pos s = s\<lparr>items := take pos (items s) @ a # drop pos (items s)\<rparr>"

definition updateList :: "nat \<Rightarrow> state \<Rightarrow> state" where
  "updateList a s =
     (case findIndex (\<lambda>b. getConversationId s b = getConversationId s a) (items s) of
        None \<Rightarrow> s
      | Some i \<Rightarrow> s\<lparr>items := (items s)[i := a]\<rparr>)"

definition updateAndMoveToFirst :: "nat \<Rightarrow> state \<Rightarrow> state" where
  "updateAndMoveToFirst a s =
     (case findIndex (\<lambda>b. getConversationId s b = getConversationId s a) (items s) of
        None \<Rightarrow> s\<lparr>items := a # items s\<rparr>
      | Some i \<Rightarrow> s\<lparr>items := a # splice1 i (items s)\<rparr>)"

definition removeItemFromList :: "string \<Rightarrow> state \<Rightarrow> state" where
  "removeItemFromList k s =
     (case findIndex (\<lambda>b. getConversationId s b = k) (items s) of
        None \<Rightarrow> s
      | Some i \<Rightarrow> s\<lparr>items := splice1 i (items s)\<rparr>)"

subsection \<open>What the list shows\<close>

definition view :: "state \<Rightarrow> conversation list" where
  "view s = map (get_obj s) (items s)"

definition ids :: "state \<Rightarrow> string list" where
  "ids s = map (getConversationId s) (items s)"


text \<open>
  In a well-formed state every reference points at an allocated object.  That the store
  holds one record per conversation id is \<open>distinct (ids s)\<close>.
\<close>

definition refs_ok :: "state \<Rightarrow> bool" where
  "refs_ok s = (list_all (\<lambda>a. a < length (heap s)) (items s)
     \<and> list_all (\<lambda>a. a < length (heap s)) (selectedConversation s))"

section \<open>Event handlers\<close>

text \<open>
  Each definition below is one run-to-completion task of the JavaScript event loop: a
  handler up to the point where it returns, or the continuation of a promise, which
  receives the outcome of the promise (\<open>Inl\<close> a rejection, \<open>Inr\<close> the value) and the
  state at the time it runs.  A task that throws is \<open>Inl\<close> of the error.

  A handler is a closure of one render of the component: \<open>selecting\<close>,
  \<open>selectedConversation\<close> and the props in its body are the constants of that render,
  not the current React state.  The listeners registered by the mount effect (whose
  dependency list is empty) are closures of the first render, in which nothing is
  selected; the handlers in the JSX are closures of the latest render; a promise
  continuation belongs to the render of the handler that created the promise.  The
  handlers that read the two states therefore take the \<open>render\<close> they belong to, and
  \<open>setSelectedConversations\<close> writes the state.
\<close>

record render =
  rd_selecting :: bool
  rd_selectedConversation :: "nat list"



definition call_onError :: "props \<Rightarrow> js_error \<Rightarrow> state \<Rightarrow> state" where
  "call_onError p e s = (if onError p then s\<lparr>onErrorCalls := onErrorCalls s @ [e]\<rparr> else s)"

subsection \<open>Presence and block events\<close>

text \<open>The template literal \<open>${loggedInUser.current?.getUid()}\<close>.\<close>

definition loggedInUid_text :: "state \<Rightarrow> string" where
  "loggedInUid_text s = (case loggedInUser s of None \<Rightarrow> ''undefined'' | Some u \<Rightarrow> uid u)"

text \<open>
  The lookup that opens \<open>userEventHandler\<close>, \<open>ccUserBlocked\<close> and \<open>ccUserUnBlocked\<close>:
  \<open>getListItem(`${uid}_user_${self}`) || getListItem(`${self}_user_${uid}`)\<close>.
\<close>

definition user_item :: "state \<Rightarrow> string \<Rightarrow> nat option" where
  "user_item s u =
     (case getListItem s (u @ ''_user_'' @ loggedInUid_text s) of
        Some a \<Rightarrow> Some a
      | None \<Rightarrow> getListItem s (loggedInUid_text s @ ''_user_'' @ u))"

text \<open>
  \<open>item.getConversationWith()\<close> is called before \<open>if (item)\<close>: with no item it throws a
  TypeError, as does \<open>getBlockedByMe\<close> on a party that is not a user.
\<close>

definition userEventHandler :: "chat_user \<Rightarrow> state \<Rightarrow> js_error + state" where
  "userEventHandler u s =
     (case user_item s (uid u) of
        None \<Rightarrow> Inl TypeError
      | Some a \<Rightarrow>
          (case conversationWith (get_obj s a) of
             Group _ \<Rightarrow> Inl TypeError
           | User w \<Rightarrow>
               if blockedByMe w \<or> hasBlockedMe w then Inr s
               else let updatedConversation = new_ref s;
                        s1 = clone a s;
                        s2 = setConversationWith updatedConversation (User u) s1
                    in Inr (updateList updatedConversation s2)))"

definition removeItemFromSelectionList :: "render \<Rightarrow> string \<Rightarrow> state \<Rightarrow> state" where
  "removeItemFromSelectionList rd k s =
     (if rd_selecting rd then
        (case findIndex (\<lambda>member. getConversationId s member = k)
                (rd_selectedConversation rd) of
           Some index \<Rightarrow>
             s\<lparr>selectedConversation := splice1 index (rd_selectedConversation rd)\<rparr>
         | None \<Rightarrow> s)
      else s)"

definition ccUserBlocked :: "props \<Rightarrow> render \<Rightarrow> chat_user \<Rightarrow> state \<Rightarrow> js_error + state" where
  "ccUserBlocked p rd u s =
     (let item = user_item s (uid u) in
      if includeBlockedUsers p then
        (case item of
           None \<Rightarrow> Inr s
         | Some a \<Rightarrow>
             let updatedConversation = new_ref s;
                 s1 = clone a s;
                 s2 = setConversationWith updatedConversation (User u) s1
             in Inr (updateList updatedConversation s2))
      else
        (case item of
           None \<Rightarrow> Inl TypeError
         | Some a \<Rightarrow>
             let s1 = removeItemFromList (getConversationId s a) s
             in Inr (removeItemFromSelectionList rd (getConversationId s1 a) s1)))"

definition ccUserUnBlocked :: "chat_user \<Rightarrow> state \<Rightarrow> state" where
  "ccUserUnBlocked u s =
     (case user_item s (uid u) of
        None \<Rightarrow> s
      | Some a \<Rightarrow>
          let updatedConversation = new_ref s;
              s1 = clone a s;
              s2 = setConversationWith updatedConversation (User u) s1
          in updateList updatedConversation s2)"

subsection \<open>Typing events\<close>

record typing_indicator =
  ti_receiverType :: receiver_type
  ti_receiverId :: string
  ti_sender :: chat_user

definition typing_matches :: "typing_indicator \<Rightarrow> conversation \<Rightarrow> bool" where
  "typing_matches t c =
     ((ti_receiverType t = ReceiverType_user \<and> getConversationType c = ReceiverType_user
         \<and> (case conversationWith c of
               User w \<Rightarrow> uid w = uid (ti_sender t) \<and> \<not> (blockedByMe w \<or> hasBlockedMe w)
             | Group _ \<Rightarrow> False))
      \<or> (ti_receiverType t = ReceiverType_group \<and> getConversationType c = ReceiverType_group
         \<and> (case conversationWith c of
               Group g \<Rightarrow> guid g = ti_receiverId t
             | User _ \<Rightarrow> False)))"

definition getConversationRefFromTypingIndicator :: "state \<Rightarrow> typing_indicator \<Rightarrow> nat option" where
  "getConversationRefFromTypingIndicator s t =
     find (\<lambda>item. typing_matches t (get_obj s item)) (getAllListItems s)"

text \<open>
  \<open>is_typing\<close> is \<open>localize("IS_TYPING")\<close>.  The clone of an absent item is absent.
  Writing or deleting the property \<open>typing\<close> of a last message that does not exist throws.
\<close>

definition typingEventHandler ::
  "string \<Rightarrow> typing_indicator \<Rightarrow> bool \<Rightarrow> state \<Rightarrow> js_error + state" where
  "typingEventHandler is_typing t isTyping s =
     (case getConversationRefFromTypingIndicator s t of
        None \<Rightarrow> Inr s
      | Some a \<Rightarrow>
          let newConversation = new_ref s;
              s1 = clone a s
          in (case lastMessage (get_obj s1 newConversation) of
                None \<Rightarrow> Inl TypeError
              | Some lm \<Rightarrow>
                  if isTyping \<and> \<not> truthy_str (typing lm) then
                    Inr (updateList newConversation
                      (setLastMessage newConversation
                        (lm\<lparr>typing := Some (if ti_receiverType t = ReceiverType_group
                                             then user_name (ti_sender t) @ '' '' @ is_typing
                                             else is_typing)\<rparr>) s1))
                  else
                    Inr (updateList newConversation
                      (setLastMessage newConversation (lm\<lparr>typing := None\<rparr>) s1))))"

subsection \<open>New messages\<close>

text \<open>
  \<open>updateLastMessage\<close> only starts the derivation; the definition is its continuation
  (\<open>.then\<close> / \<open>.catch\<close>).  With no record of that id it starts a second derivation, whose
  continuation is \<open>updateLastMessage_add\<close>; a TypeError thrown there (a derived
  conversation without last message) is caught by the same \<open>.catch\<close>.
\<close>

definition updateLastMessage :: "message \<Rightarrow> js_error + conversation \<Rightarrow> state \<Rightarrow> state" where
  "updateLastMessage newMessage r s =
     (case r of
        Inl err \<Rightarrow> s\<lparr>console := console s @ [err]\<rparr>
      | Inr conv \<Rightarrow>
          (case getListItem s (conversationId conv) of
             None \<Rightarrow> s
           | Some oldConversation \<Rightarrow>
               let s1 = setLastMessage oldConversation newMessage s;
                   s2 = (if Some (uid (sender newMessage)) \<noteq> map_option uid (loggedInUser s1)
                         then setUnreadMessageCount oldConversation
                                (js_add1 (unreadMessageCount (get_obj s1 oldConversation))) s1
                         else s1);
                   cloned = new_ref s2
               in updateAndMoveToFirst cloned (clone oldConversation s2)))"

definition updateLastMessage_add :: "props \<Rightarrow> js_error + conversation \<Rightarrow> state \<Rightarrow> state" where
  "updateLastMessage_add p r s =
     (case r of
        Inl err \<Rightarrow> call_onError p err s
      | Inr newConversation \<Rightarrow>
          (case lastMessage newConversation of
             None \<Rightarrow> call_onError p TypeError s
           | Some lm \<Rightarrow>
               let a = new_ref s;
                   s1 = alloc newConversation s;
                   s2 = (if Some (uid (sender lm)) \<noteq> map_option uid (loggedInUser s1)
                         then setUnreadMessageCount a 1 s1 else s1)
               in addItemToList a 0 s2))"

subsection \<open>Receipts\<close>

datatype receipt_type =
  DELIVERY_RECEIPT | READ_RECEIPT | DELIVERED_TO_ALL_RECEIPT | READ_BY_ALL_RECEIPT

text \<open>
  A receipt; \<open>r_messageId\<close> is the number that \<open>getMessageId()\<close> denotes (the handler
  compares it to a message's numeric id with \<open>==\<close>).
\<close>

record receipt =
  r_receiverType :: receiver_type
  r_receiver :: string
  r_sender :: chat_user
  r_receiptType :: receipt_type
  r_messageId :: int
  r_readAt :: "int option"
  r_deliveredAt :: "int option"

text \<open>The expression that \<open>updateMessageReceipt\<close> binds to \<open>conv\<close> (\<open>None\<close> when falsy).\<close>

definition receipt_conv :: "state \<Rightarrow> receipt \<Rightarrow> nat option" where
  "receipt_conv s r =
     (if r_receiverType r = ReceiverType_user then
        (case getListItem s (r_receiver r @ ''_user_'' @ uid (r_sender r)) of
           Some a \<Rightarrow> Some a
         | None \<Rightarrow> getListItem s (uid (r_sender r) @ ''_user_'' @ r_receiver r))
      else if r_receiptType r \<in> set [DELIVERED_TO_ALL_RECEIPT, READ_BY_ALL_RECEIPT]
        then getListItem s (''group_'' @ r_receiver r)
      else None)"

definition updateMessageReceipt :: "receipt \<Rightarrow> state \<Rightarrow> js_error + state" where
  "updateMessageReceipt r s =
     (case receipt_conv s r of
        None \<Rightarrow> Inr s
      | Some conv \<Rightarrow>
          (case lastMessage (get_obj s conv) of
             None \<Rightarrow> Inl TypeError
           | Some lm \<Rightarrow>
               if getConversationType (get_obj s conv) = ReceiverType_group
                  \<and> loggedInUser s = None then Inl TypeError
               else if getConversationType (get_obj s conv) = ReceiverType_group
                  \<and> Some (uid (sender lm)) \<noteq> map_option uid (loggedInUser s) then Inr s
               else if m_id lm = r_messageId r \<or> m_messageId lm = Some (r_messageId r) then
                 let newConversation = new_ref s;
                     s1 = clone conv s;
                     lm1 = (if truthy_num (r_readAt r) then lm\<lparr>readAt := r_readAt r\<rparr> else lm);
                     lm2 = (if truthy_num (r_deliveredAt r)
                            then lm1\<lparr>deliveredAt := r_deliveredAt r\<rparr> else lm1)
                 in Inr (updateList newConversation (setLastMessage newConversation lm2 s1))
               else Inr s))"

subsection \<open>Group actions\<close>

text \<open>
  \<open>groupHandler\<close> up to its return.  With no record of the message's conversation id it
  only starts the derivation, whose continuation is \<open>groupHandler_then\<close>.
  \<open>loggedInUser.current!.getUid()\<close> throws while no user is logged in, and \<open>getScope\<close>
  on a party that is not a group throws.  \<open>group.setScope\<close> changes the group object
  of the event before it becomes the conversation's party.
\<close>

definition is_removal :: "string option \<Rightarrow> bool" where
  "is_removal act = (case act of None \<Rightarrow> False | Some x \<Rightarrow> x \<in> set [''kicked'', ''banned'', ''left''])"

definition groupHandler :: "settings \<Rightarrow> message \<Rightarrow> otherDetails \<Rightarrow> state \<Rightarrow> js_error + state" where
  "groupHandler st msg d s =
     (case getListItem s (m_conversationId msg) of
        None \<Rightarrow> Inr s
      | Some conversation \<Rightarrow>
          if action d = Some ''scopeChange'' \<and> loggedInUser s = None then Inl TypeError
          else
            let reset = (action d = Some ''scopeChange''
                          \<and> map_option uid (actionOn d) \<noteq> map_option uid (loggedInUser s));
                oldScope1 = (if reset then None else oldScope d);
                newScope1 = (if reset then None else newScope d)
            in if oldScope1 = None \<and> getConversationType (get_obj s conversation) \<noteq> ReceiverType_group
               then Inl TypeError
               else
                 let oldScopeLocal =
                       (case oldScope1 of
                          Some x \<Rightarrow> Some x
                        | None \<Rightarrow> (case conversationWith (get_obj s conversation) of
                                     Group g \<Rightarrow> scope g | User _ \<Rightarrow> None))
                 in if is_removal (action d) \<and> actionOn d \<noteq> None \<and> loggedInUser s = None
                    then Inl TypeError
                    else if is_removal (action d) \<and> actionOn d \<noteq> None
                            \<and> map_option uid (actionOn d) = map_option uid (loggedInUser s)
                    then Inr (removeItemFromList (m_conversationId msg) s)
                    else if \<not> shouldUpdateOnGroupActions st then Inr s
                    else
                      let s1 = setLastMessage conversation msg s;
                          s2 = (case group_arg d of
                                  None \<Rightarrow> s1
                                | Some g \<Rightarrow>
                                    setConversationWith conversation
                                      (Group (if truthy_str (scope g) then g
                                              else g\<lparr>scope := (case newScope1 of
                                                                 Some n \<Rightarrow> Some n
                                                               | None \<Rightarrow> oldScopeLocal)\<rparr>)) s1)
                      in Inr (updateList conversation s2))"

definition no_details :: otherDetails where
  "no_details = \<lparr>action = None, actionOn = None, actionBy = None, group_arg = None,
                 newScope = None, oldScope = None\<rparr>"

text \<open>
  The continuation has no \<open>.catch\<close>: a rejected derivation is an unhandled rejection.
  It looks the record up again and, if one appeared meanwhile, calls
  \<open>groupHandler(message)\<close>.
\<close>

definition groupHandler_then ::
  "settings \<Rightarrow> message \<Rightarrow> js_error + conversation \<Rightarrow> state \<Rightarrow> js_error + state" where
  "groupHandler_then st msg r s =
     (case r of
        Inl err \<Rightarrow> Inr (s\<lparr>unhandled := unhandled s @ [err]\<rparr>)
      | Inr newConversation \<Rightarrow>
          (case getListItem s (m_conversationId msg) of
             Some _ \<Rightarrow> groupHandler st msg no_details s
           | None \<Rightarrow> Inr (addItemToList (new_ref s) 0 (alloc newConversation s))))"

text \<open>
  \<open>updateConversationLastMessage\<close> (the \<open>ccGroupMemberKicked\<close> and \<open>ccGroupMemberAdded\<close>
  UI events) up to its return; with no record it starts a derivation whose continuation
  is the one of \<open>updateLastMessage_add\<close>.
\<close>

definition updateConversationLastMessage :: "message \<Rightarrow> chat_group \<Rightarrow> state \<Rightarrow> state" where
  "updateConversationLastMessage msg g s =
     (case getListItem s (m_conversationId msg) of
        None \<Rightarrow> s
      | Some a \<Rightarrow>
          let conversation = new_ref s;
              s1 = clone a s;
              s2 = setLastMessage conversation msg s1;
              s3 = setConversationWith conversation (Group g) s2
          in updateAndMoveToFirst conversation s3)"

subsection \<open>Call events\<close>

text \<open>
  \<open>updateUnreadMessageCount\<close> gets the derived conversation, a new object, and returns
  either it or the object of the store.
\<close>

definition updateUnreadMessageCount :: "conversation \<Rightarrow> state \<Rightarrow> nat \<times> state" where
  "updateUnreadMessageCount conv s =
     (case getListItem s (conversationId conv) of
        None \<Rightarrow> (new_ref s, alloc (conv\<lparr>unreadMessageCount := 1\<rparr>) s)
      | Some oldConversation \<Rightarrow>
          (oldConversation,
           setUnreadMessageCount oldConversation
             (js_add1 (unreadMessageCount (get_obj s oldConversation))) s))"

text \<open>
  The continuation of the derivation in \<open>onIncomingCallReceived\<close> (the other three SDK
  call listeners have the same body).
\<close>

definition onIncomingCallReceived ::
  "settings \<Rightarrow> props \<Rightarrow> message \<Rightarrow> js_error + conversation \<Rightarrow> state \<Rightarrow> state" where
  "onIncomingCallReceived st p call r s =
     (case r of
        Inl e \<Rightarrow> call_onError p e s
      | Inr conv \<Rightarrow>
          if \<not> shouldUpdateOnCallActivities st then s
          else (case updateUnreadMessageCount conv s of
                  (conversation, s1) \<Rightarrow>
                    updateList conversation (setLastMessage conversation call s1)))"

subsection \<open>Selection and deletion\<close>








subsection \<open>Mounting and unmounting\<close>

text \<open>
  Modelled from the spec: registration and removal of an event subscription (the SDK
  and CometChatUIEventHandler are not among the sources).  A listener is registered
  under the id of its kind from \<open>add...Listener\<close> until \<open>remove...Listener\<close>.
\<close>

definition addListener :: "listener \<Rightarrow> state \<Rightarrow> state" where
  "addListener l s = s\<lparr>listeners := l # removeAll l (listeners s)\<rparr>"

definition removeListener :: "listener \<Rightarrow> state \<Rightarrow> state" where
  "removeListener l s = s\<lparr>listeners := removeAll l (listeners s)\<rparr>"

text \<open>The registrations of the effect, in source order, and its cleanup function.\<close>

definition mount :: "state \<Rightarrow> state" where
  "mount s =
     addListener UI_CallListener (addListener UI_UserListener (addListener UI_GroupListener
       (addListener UI_MessageListener (addListener UI_ConversationListener
         (addListener SDK_GroupListener (addListener SDK_CallListener
           (addListener SDK_UserListener s)))))))"

definition cleanup :: "state \<Rightarrow> state" where
  "cleanup s =
     removeListener UI_UserListener (removeListener UI_GroupListener
       (removeListener UI_ConversationListener (removeListener UI_MessageListener
         (removeListener SDK_GroupListener (removeListener SDK_CallListener
           (removeListener SDK_UserListener s))))))"

text \<open>
  \<open>onMemberAddedToGroup\<close> clears the scheduled task, if any, and schedules a new one,
  which is to call \<open>groupHandler\<close> with these arguments after 50 ms.
\<close>

definition onMemberAddedToGroup ::
  "message \<Rightarrow> chat_user \<Rightarrow> chat_user \<Rightarrow> chat_group \<Rightarrow> state \<Rightarrow> state" where
  "onMemberAddedToGroup msg userAdded userAddedBy userAddedIn s =
     s\<lparr>timer := Some (msg, \<lparr>action = Some ''joined'', actionOn = Some userAdded,
                             actionBy = Some userAddedBy, group_arg = Some userAddedIn,
                             newScope = None, oldScope = None\<rparr>)\<rparr>"

section \<open>Reachable states\<close>


section \<open>Example data\<close>

definition alice :: chat_user where
  "alice = \<lparr>uid = ''alice'', user_name = ''Alice'', blockedByMe = False, hasBlockedMe = False\<rparr>"

definition bob :: chat_user where
  "bob = \<lparr>uid = ''bob'', user_name = ''Bob'', blockedByMe = False, hasBlockedMe = False\<rparr>"

definition team :: chat_group where
  "team = \<lparr>guid = ''g1'', group_name = ''Team'', scope = Some ''participant''\<rparr>"

definition text_msg :: "int \<Rightarrow> chat_user \<Rightarrow> string \<Rightarrow> receiver_type \<Rightarrow> message" where
  "text_msg n u cid rt =
     \<lparr>m_id = n, m_messageId = None, parentMessageId = None, category = Cat_message,
      receiverType = rt, sender = u, m_conversationId = cid, willUpdateConversation = False,
      metadata = None, readAt = None, deliveredAt = None, typing = None\<rparr>"

definition action_msg :: "int \<Rightarrow> chat_user \<Rightarrow> message" where
  "action_msg n u = (text_msg n u ''group_g1'' ReceiverType_group)\<lparr>category := Cat_action\<rparr>"

definition all_on :: settings where
  "all_on = \<lparr>shouldUpdateOnMessageReplies = True, shouldUpdateOnCustomMessages = True,
             shouldUpdateOnGroupActions = True, shouldUpdateOnCallActivities = True\<rparr>"

text \<open>
  A store of two conversations of the logged-in user alice: the direct conversation
  with bob at address 0 and the group conversation of g1, with three unread messages,
  at address 1.
\<close>

definition chat_bob :: conversation where
  "chat_bob = \<lparr>conversationId = ''alice_user_bob'', conversationWith = User bob,
     lastMessage = Some (text_msg 1 alice ''alice_user_bob'' ReceiverType_user),
     unreadMessageCount = 0\<rparr>"

definition chat_team :: conversation where
  "chat_team = \<lparr>conversationId = ''group_g1'', conversationWith = Group team,
     lastMessage = Some (text_msg 2 alice ''group_g1'' ReceiverType_group),
     unreadMessageCount = 3\<rparr>"

definition store0 :: state where
  "store0 = \<lparr>heap = [chat_bob, chat_team], items = [0, 1], selecting = False,
     selectedConversation = [], loggedInUser = Some alice, listeners = [], timer = None,
     onErrorCalls = [], onItemPressCalls = [], console = [], unhandled = [], emitted = []\<rparr>"

definition read_receipt :: receipt where
  "read_receipt = \<lparr>r_receiverType = ReceiverType_user, r_receiver = ''alice'', r_sender = bob,
     r_receiptType = READ_RECEIPT, r_messageId = 1, r_readAt = Some 1700, r_deliveredAt = None\<rparr>"

text \<open>
  bob typing to alice; the store in which bob's conversation already shows the typing
  annotation; and the store in which the group conversation has \<open>2^53\<close> unread messages.
\<close>

definition bob_typing :: typing_indicator where
  "bob_typing = \<lparr>ti_receiverType = ReceiverType_user, ti_receiverId = ''alice'', ti_sender = bob\<rparr>"

definition typing_store :: state where
  "typing_store = store0\<lparr>heap :=
     [chat_bob\<lparr>lastMessage := Some ((text_msg 1 alice ''alice_user_bob'' ReceiverType_user)
                                      \<lparr>typing := Some ''is typing...''\<rparr>)\<rparr>, chat_team]\<rparr>"

definition big_store :: state where
  "big_store = store0\<lparr>heap :=
     [chat_bob, chat_team\<lparr>unreadMessageCount := 9007199254740992\<rparr>]\<rparr>"

text \<open>
  carol, who has no conversation in the store; the details of "alice was kicked by
  bob"; props with an \<open>onError\<close> callback only; and a failed SDK call.
\<close>

definition carol :: chat_user where
  "carol = \<lparr>uid = ''carol'', user_name = ''Carol'', blockedByMe = False, hasBlockedMe = False\<rparr>"


definition props0 :: props where
  "props0 = \<lparr>onError = True, onItemPress = False, selectionMode = SelectionMode_multiple,
     includeBlockedUsers = False\<rparr>"


section \<open>Properties of the update policy\<close>

text \<open>
  C6 (as amended).  For an action-category event addressed to a group that is not a
  thread reply, or when the "update on message replies" toggle is on, the policy
  returns exactly the "update on group actions" toggle.
\<close>

theorem policy_group_action_is_toggle:
  assumes "category m = Cat_action"
    and "receiverType m = ReceiverType_group"
    and "\<not> truthy_num (parentMessageId m) \<or> shouldUpdateOnMessageReplies st"
  shows "shouldUpdateLastMessageAndUnreadCount st m = shouldUpdateOnGroupActions st"
  using assms by (auto simp: shouldUpdateLastMessageAndUnreadCount_def)

theorem policy_group_action_is_toggle_witness:
  "category (action_msg 7 bob) = Cat_action
   \<and> receiverType (action_msg 7 bob) = ReceiverType_group
   \<and> \<not> truthy_num (parentMessageId (action_msg 7 bob))
   \<and> shouldUpdateLastMessageAndUnreadCount (all_on\<lparr>shouldUpdateOnGroupActions := False\<rparr>)
        (action_msg 7 bob) = False"
  using policy_group_action_is_toggle
    [of "action_msg 7 bob" "all_on\<lparr>shouldUpdateOnGroupActions := False\<rparr>"]
  by (simp add: action_msg_def text_msg_def truthy_num_def)

text \<open>
  C6 (as stated) fails: a group action that carries a parent message id is rejected
  when the replies toggle is off although the group-actions toggle is on, and an
  action addressed to a user is accepted although the group-actions toggle is off.
\<close>

theorem policy_group_action_counterexample:
  "category ((action_msg 7 bob)\<lparr>parentMessageId := Some 3\<rparr>) = Cat_action
   \<and> shouldUpdateLastMessageAndUnreadCount (all_on\<lparr>shouldUpdateOnMessageReplies := False\<rparr>)
        ((action_msg 7 bob)\<lparr>parentMessageId := Some 3\<rparr>)
      \<noteq> shouldUpdateOnGroupActions (all_on\<lparr>shouldUpdateOnMessageReplies := False\<rparr>)
   \<and> category ((action_msg 7 bob)\<lparr>receiverType := ReceiverType_user\<rparr>) = Cat_action
   \<and> shouldUpdateLastMessageAndUnreadCount (all_on\<lparr>shouldUpdateOnGroupActions := False\<rparr>)
        ((action_msg 7 bob)\<lparr>receiverType := ReceiverType_user\<rparr>)
      \<noteq> shouldUpdateOnGroupActions (all_on\<lparr>shouldUpdateOnGroupActions := False\<rparr>)"
  by (simp add: shouldUpdateLastMessageAndUnreadCount_def action_msg_def text_msg_def
      all_on_def truthy_num_def)

section \<open>Lists, objects and the store\<close>

lemma findIndex_Some:
  "findIndex P xs = Some i \<Longrightarrow> i < length xs \<and> P (xs ! i) \<and> (\<forall>j<i. \<not> P (xs ! j))"
proof (induction xs arbitrary: i)
  case Nil
  then show ?case by simp
next
  case (Cons x xs)
  show ?case
  proof (cases "P x")
    case True
    with Cons.prems show ?thesis by simp
  next
    case False
    with Cons.prems obtain j where j: "findIndex P xs = Some j" "i = Suc j" by auto
    from Cons.IH[OF j(1)] False j(2) show ?thesis
      by (auto simp: nth_Cons split: nat.splits)
  qed
qed


lemma findIndex_cong:
  "(\<And>x. x \<in> set xs \<Longrightarrow> P x = Q x) \<Longrightarrow> findIndex P xs = findIndex Q xs"
  by (induction xs) auto

lemma find_findIndex:
  "find P xs = Some a \<Longrightarrow> \<exists>i. findIndex P xs = Some i \<and> xs ! i = a \<and> i < length xs"
  by (induction xs) (auto split: if_splits)

lemma findIndex_find:
  "findIndex P xs = Some i \<Longrightarrow> find P xs = Some (xs ! i)"
  by (induction xs arbitrary: i) (auto split: if_splits)

lemma findIndex_map: "findIndex P (map f xs) = findIndex (\<lambda>x. P (f x)) xs"
  by (induction xs) auto

lemma splice1_filter:
  "distinct (map f xs) \<Longrightarrow> findIndex (\<lambda>x. f x = k) xs = Some i
     \<Longrightarrow> splice1 i xs = filter (\<lambda>x. f x \<noteq> k) xs"
proof (induction xs arbitrary: i)
  case Nil
  then show ?case by simp
next
  case (Cons x xs)
  show ?case
  proof (cases "f x = k")
    case True
    with Cons.prems have "i = 0" by simp
    moreover from True Cons.prems(1) have "\<forall>y\<in>set xs. f y \<noteq> k" by (auto simp: image_iff)
    ultimately show ?thesis using True by (simp add: splice1_def filter_id_conv)
  next
    case False
    with Cons.prems obtain j where j: "findIndex (\<lambda>x. f x = k) xs = Some j" "i = Suc j" by auto
    from Cons.prems(1) have "distinct (map f xs)" by simp
    from Cons.IH[OF this j(1)] False j(2) show ?thesis by (simp add: splice1_def)
  qed
qed

lemma in_items_lt: "refs_ok s \<Longrightarrow> x \<in> set (items s) \<Longrightarrow> x < length (heap s)"
  by (simp add: refs_ok_def list_all_iff)

lemma getListItem_Some:
  assumes "getListItem s k = Some a"
  shows "\<exists>i. findIndex (\<lambda>b. getConversationId s b = k) (items s) = Some i
           \<and> items s ! i = a \<and> i < length (items s) \<and> getConversationId s a = k"
proof -
  from assms obtain i where i: "findIndex (\<lambda>b. getConversationId s b = k) (items s) = Some i"
    "items s ! i = a" "i < length (items s)"
    unfolding getListItem_def using find_findIndex by fast
  from findIndex_Some[OF i(1)] i(2) have "getConversationId s a = k" by simp
  with i show ?thesis by blast
qed

lemma clone_set_update:
  assumes ok: "refs_ok s"
    and i: "findIndex (\<lambda>b. getConversationId s b = k) (items s) = Some i"
    and idc: "conversationId c' = k"
  shows "updateList (new_ref s) (set_obj (new_ref s) c' (clone a s))
           = s\<lparr>heap := heap s @ [c'], items := (items s)[i := new_ref s]\<rparr>"
    and "view (updateList (new_ref s) (set_obj (new_ref s) c' (clone a s))) = (view s)[i := c']"
proof -
  let ?H = "heap s"
  define s2 where "s2 = s\<lparr>heap := ?H @ [c']\<rparr>"
  have s2: "set_obj (new_ref s) c' (clone a s) = s2"
    by (simp add: s2_def set_obj_def clone_def alloc_def new_ref_def)
  have cid2: "getConversationId s2 x = getConversationId s x" if "x \<in> set (items s)" for x
  proof -
    from ok that have "x < length ?H" by (rule in_items_lt)
    then show ?thesis by (simp add: s2_def getConversationId_def get_obj_def nth_append)
  qed
  have cidb: "getConversationId s2 (new_ref s) = k"
    using idc by (simp add: s2_def getConversationId_def get_obj_def new_ref_def)
  have "findIndex (\<lambda>b. getConversationId s2 b = k) (items s)
      = findIndex (\<lambda>b. getConversationId s b = k) (items s)"
    using cid2 by (intro findIndex_cong) simp
  with i have fi: "findIndex (\<lambda>b. getConversationId s2 b = getConversationId s2 (new_ref s)) (items s2)
      = Some i"
    by (simp add: cidb) (simp add: s2_def)
  then have r: "updateList (new_ref s) s2 = s\<lparr>heap := ?H @ [c'], items := (items s)[i := new_ref s]\<rparr>"
    by (simp add: updateList_def) (simp add: s2_def)
  then show "updateList (new_ref s) (set_obj (new_ref s) c' (clone a s))
           = s\<lparr>heap := heap s @ [c'], items := (items s)[i := new_ref s]\<rparr>"
    by (simp add: s2)
  from findIndex_Some[OF i] have il: "i < length (items s)" by simp
  let ?s' = "s\<lparr>heap := ?H @ [c'], items := (items s)[i := new_ref s]\<rparr>"
  have "map (get_obj ?s') ((items s)[i := new_ref s]) = (map (get_obj s) (items s))[i := c']"
  proof (rule nth_equalityI)
    show "length (map (get_obj ?s') ((items s)[i := new_ref s]))
        = length ((map (get_obj s) (items s))[i := c'])" by simp
  next
    fix j assume "j < length (map (get_obj ?s') ((items s)[i := new_ref s]))"
    then have jl: "j < length (items s)" by simp
    then have "items s ! j \<in> set (items s)" by simp
    with ok have "items s ! j < length ?H" by (rule in_items_lt)
    then show "map (get_obj ?s') ((items s)[i := new_ref s]) ! j
        = (map (get_obj s) (items s))[i := c'] ! j"
      using jl il by (cases "j = i") (simp_all add: get_obj_def new_ref_def nth_append)
  qed
  then show "view (updateList (new_ref s) (set_obj (new_ref s) c' (clone a s))) = (view s)[i := c']"
    unfolding s2 r view_def by simp
qed

lemma get_obj_clone_new: "get_obj (clone a s) (new_ref s) = get_obj s a"
  by (simp add: get_obj_def clone_def alloc_def new_ref_def)

lemma setLastMessage_clone:
  "setLastMessage (new_ref s) m (clone a s)
     = set_obj (new_ref s) ((get_obj s a)\<lparr>lastMessage := Some m\<rparr>) (clone a s)"
  by (simp add: setLastMessage_def get_obj_clone_new)

lemma receipt_conv_Some: "receipt_conv s r = Some a \<Longrightarrow> \<exists>k. getListItem s k = Some a"
  by (auto simp: receipt_conv_def split: if_splits option.splits)

lemma ids_view: "ids s = map conversationId (view s)"
  by (simp add: ids_def view_def getConversationId_def)

lemma findIndex_update_same:
  "i < length xs \<Longrightarrow> P c = P (xs ! i) \<Longrightarrow> findIndex P (xs[i := c]) = findIndex P xs"
proof (induction xs arbitrary: i)
  case Nil
  then show ?case by simp
next
  case (Cons x xs)
  then show ?case by (cases i) simp_all
qed

lemma findIndex_distinct_index:
  "distinct (map f xs) \<Longrightarrow> i < length xs \<Longrightarrow> findIndex (\<lambda>x. f x = f (xs ! i)) xs = Some i"
proof (induction xs arbitrary: i)
  case Nil
  then show ?case by simp
next
  case (Cons x xs)
  show ?case
  proof (cases i)
    case 0
    then show ?thesis by simp
  next
    case (Suc j)
    with Cons.prems have "j < length xs" "distinct (map f xs)" by simp_all
    from Cons.IH[OF this(2) this(1)] have "findIndex (\<lambda>x. f x = f (xs ! j)) xs = Some j" .
    moreover from Cons.prems Suc have "f x \<noteq> f (xs ! j)" by (auto simp: image_iff)
    ultimately show ?thesis using Suc by simp
  qed
qed

lemma view_after_clone_update:
  assumes ok: "refs_ok s" and il: "i < length (items s)"
  shows "view (s\<lparr>heap := heap s @ [c'], items := (items s)[i := new_ref s]\<rparr>) = (view s)[i := c']"
  unfolding view_def
proof (rule nth_equalityI)
  let ?s' = "s\<lparr>heap := heap s @ [c'], items := (items s)[i := new_ref s]\<rparr>"
  show "length (map (get_obj ?s') (items ?s')) = length ((map (get_obj s) (items s))[i := c'])"
    by simp
  fix j assume "j < length (map (get_obj ?s') (items ?s'))"
  then have jl: "j < length (items s)" by simp
  then have "items s ! j \<in> set (items s)" by simp
  with ok have "items s ! j < length (heap s)" by (rule in_items_lt)
  then show "map (get_obj ?s') (items ?s') ! j = (map (get_obj s) (items s))[i := c'] ! j"
    using jl il by (cases "j = i") (simp_all add: get_obj_def new_ref_def nth_append)
qed

lemma refs_ok_after_clone_update:
  assumes ok: "refs_ok s"
  shows "refs_ok (s\<lparr>heap := heap s @ [c'], items := (items s)[i := new_ref s]\<rparr>)"
proof -
  have "x < Suc (length (heap s))" if "x \<in> set ((items s)[i := length (heap s)])" for x
  proof -
    from that set_update_subset_insert[of "items s" i "length (heap s)"]
    have "x = length (heap s) \<or> x \<in> set (items s)" by auto
    with ok show ?thesis by (auto simp: refs_ok_def list_all_iff less_Suc_eq)
  qed
  moreover have "x < Suc (length (heap s))" if "x \<in> set (selectedConversation s)" for x
    using ok that by (auto simp: refs_ok_def list_all_iff less_Suc_eq)
  ultimately show ?thesis by (simp add: refs_ok_def list_all_iff new_ref_def)
qed




section \<open>Adding 1 to a JavaScript number\<close>

lemma spacing_below: "m < 2 ^ 53 \<Longrightarrow> spacing m 1 = 1"
  by (subst spacing.simps) simp

lemma round_to_double_exact: "\<bar>x\<bar> < 2 ^ 53 \<Longrightarrow> round_to_double x = x"
  by (simp add: round_to_double_def Let_def spacing_below sgn_if)

lemma spacing_at_2_53: "spacing 9007199254740992 1 = 2"
  by (subst spacing.simps, simp, subst spacing.simps, simp)

lemma spacing_above_2_53: "spacing 9007199254740993 1 = 2"
  by (subst spacing.simps, simp, subst spacing.simps, simp)

lemma js_add1_exact: "\<bar>n\<bar> < 2 ^ 53 \<Longrightarrow> js_add1 n = n + 1"
proof -
  assume b: "\<bar>n\<bar> < 2 ^ 53"
  show ?thesis
  proof (cases "n = 9007199254740991")
    case True
    then show ?thesis
      by (simp add: js_add1_def round_to_double_def Let_def spacing_at_2_53)
  next
    case False
    with b have "\<bar>n + 1\<bar> < 2 ^ 53" by simp
    then show ?thesis unfolding js_add1_def by (rule round_to_double_exact)
  qed
qed

lemma js_add1_sticks: "js_add1 9007199254740992 = 9007199254740992"
  by (simp add: js_add1_def round_to_double_def Let_def spacing_above_2_53)

section \<open>New messages\<close>

text \<open>
  What the continuation of \<open>updateLastMessage\<close> shows when the derived conversation
  has a record: the record at index 0, every other record after it.
\<close>

lemma updateLastMessage_existing_general:
  assumes ok: "refs_ok s" and d: "distinct (ids s)"
    and g: "getListItem s (conversationId conv) = Some a"
  shows "view (updateLastMessage m (Inr conv) s) =
     (get_obj s a)\<lparr>lastMessage := Some m,
        unreadMessageCount :=
          (if Some (uid (sender m)) \<noteq> map_option uid (loggedInUser s)
           then js_add1 (unreadMessageCount (get_obj s a))
           else unreadMessageCount (get_obj s a))\<rparr>
     # filter (\<lambda>c. conversationId c \<noteq> conversationId conv) (view s)"
proof -
  let ?k = "conversationId conv"
  let ?H = "heap s"
  from getListItem_Some[OF g] obtain i where
    i: "findIndex (\<lambda>b. getConversationId s b = ?k) (items s) = Some i"
    and ia: "items s ! i = a" and il: "i < length (items s)"
    and ka: "getConversationId s a = ?k" by blast
  from ia il have a_in: "a \<in> set (items s)" by auto
  from ok a_in have a_lt: "a < length ?H" by (rule in_items_lt)
  define c' where "c' = (get_obj s a)\<lparr>lastMessage := Some m,
        unreadMessageCount :=
          (if Some (uid (sender m)) \<noteq> map_option uid (loggedInUser s)
           then js_add1 (unreadMessageCount (get_obj s a))
           else unreadMessageCount (get_obj s a))\<rparr>"
  define H1 where "H1 = ?H[a := c']"
  define s3 where "s3 = s\<lparr>heap := H1 @ [c']\<rparr>"
  have id_c': "conversationId c' = ?k" using ka by (simp add: c'_def getConversationId_def)
  have cid3: "getConversationId s3 x = getConversationId s x" if "x \<in> set (items s)" for x
  proof -
    from ok that have "x < length ?H" by (rule in_items_lt)
    then show ?thesis using id_c' ka
      by (cases "x = a") (simp_all add: s3_def H1_def getConversationId_def get_obj_def nth_append)
  qed
  have cidb: "getConversationId s3 (length ?H) = ?k"
    using id_c' by (simp add: s3_def H1_def getConversationId_def get_obj_def nth_append)
  have fi: "findIndex (\<lambda>b. getConversationId s3 b = getConversationId s3 (length ?H)) (items s)
      = Some i"
    using i cid3 cidb findIndex_cong[of "items s" "\<lambda>b. getConversationId s3 b = ?k"
        "\<lambda>b. getConversationId s b = ?k"] by simp
  have res: "updateLastMessage m (Inr conv) s = s3\<lparr>items := length ?H # splice1 i (items s)\<rparr>"
  proof (cases "Some (uid (sender m)) \<noteq> map_option uid (loggedInUser s)")
    case True
    with g a_lt fi show ?thesis
      by (simp add: updateLastMessage_def Let_def setLastMessage_def setUnreadMessageCount_def
          set_obj_def get_obj_def clone_def alloc_def new_ref_def updateAndMoveToFirst_def
          s3_def H1_def c'_def)
  next
    case False
    with g a_lt fi show ?thesis
      by (simp add: updateLastMessage_def Let_def setLastMessage_def setUnreadMessageCount_def
          set_obj_def get_obj_def clone_def alloc_def new_ref_def updateAndMoveToFirst_def
          s3_def H1_def c'_def)
  qed
  have sp: "splice1 i (items s) = filter (\<lambda>x. getConversationId s x \<noteq> ?k) (items s)"
    using splice1_filter[OF _ i] d by (simp add: ids_def)
  have tail: "map (get_obj (s3\<lparr>items := length ?H # splice1 i (items s)\<rparr>))
       (filter (\<lambda>x. getConversationId s x \<noteq> ?k) (items s))
     = filter (\<lambda>c. conversationId c \<noteq> ?k) (map (get_obj s) (items s))"
  proof -
    have "get_obj (s3\<lparr>items := length ?H # splice1 i (items s)\<rparr>) x = get_obj s x"
      if "x \<in> set (items s)" "getConversationId s x \<noteq> ?k" for x
    proof -
      from ok that(1) have "x < length ?H" by (rule in_items_lt)
      moreover from that(2) ka have "x \<noteq> a" by auto
      ultimately show ?thesis by (simp add: s3_def H1_def get_obj_def nth_append)
    qed
    then show ?thesis
      by (simp add: filter_map o_def getConversationId_def cong: map_cong)
  qed
  have hd: "get_obj (s3\<lparr>items := length ?H # splice1 i (items s)\<rparr>) (length ?H) = c'"
    by (simp add: s3_def H1_def get_obj_def nth_append)
  show ?thesis
    unfolding res view_def using hd tail sp by (simp add: c'_def)
qed

text \<open>
  C1 (as amended).  When the derived conversation of a new message already has a record
  in the store and the unread count of that record is an integer of magnitude below
  \<open>2^53\<close>, the continuation of \<open>updateLastMessage\<close> puts at index 0 that record with
  the new message as last message and with the unread count incremented by exactly 1
  if the sender is not the logged-in user and unchanged if it is; every other record
  follows unchanged and in its old order.
\<close>

theorem updateLastMessage_existing_record:
  assumes ok: "refs_ok s" and d: "distinct (ids s)"
    and g: "getListItem s (conversationId conv) = Some a"
    and bound: "\<bar>unreadMessageCount (get_obj s a)\<bar> < 2 ^ 53"
  shows "view (updateLastMessage m (Inr conv) s) =
     (get_obj s a)\<lparr>lastMessage := Some m,
        unreadMessageCount := unreadMessageCount (get_obj s a)
          + (if Some (uid (sender m)) \<noteq> map_option uid (loggedInUser s) then 1 else 0)\<rparr>
     # filter (\<lambda>c. conversationId c \<noteq> conversationId conv) (view s)"
proof -
  have "(if Some (uid (sender m)) \<noteq> map_option uid (loggedInUser s)
           then js_add1 (unreadMessageCount (get_obj s a))
           else unreadMessageCount (get_obj s a))
      = unreadMessageCount (get_obj s a)
          + (if Some (uid (sender m)) \<noteq> map_option uid (loggedInUser s) then 1 else 0)"
    using js_add1_exact[OF bound] by simp
  with updateLastMessage_existing_general[OF ok d g, of m] show ?thesis by simp
qed

theorem updateLastMessage_existing_record_witness:
  "refs_ok store0 \<and> distinct (ids store0)
   \<and> getListItem store0 (conversationId chat_team) = Some 1
   \<and> \<bar>unreadMessageCount (get_obj store0 1)\<bar> < 2 ^ 53
   \<and> Some (uid (sender (text_msg 9 bob ''group_g1'' ReceiverType_group)))
        \<noteq> map_option uid (loggedInUser store0)
   \<and> view (updateLastMessage (text_msg 9 bob ''group_g1'' ReceiverType_group)
        (Inr chat_team) store0)
     = [chat_team\<lparr>lastMessage := Some (text_msg 9 bob ''group_g1'' ReceiverType_group),
                   unreadMessageCount := 4\<rparr>, chat_bob]"
proof -
  have h1: "refs_ok store0" by (simp add: refs_ok_def store0_def)
  have h2: "distinct (ids store0)"
    by (simp add: ids_def getConversationId_def get_obj_def store0_def chat_bob_def chat_team_def)
  have h3: "getListItem store0 (conversationId chat_team) = Some 1"
    by (simp add: getListItem_def getConversationId_def get_obj_def store0_def chat_bob_def
        chat_team_def)
  have h4: "\<bar>unreadMessageCount (get_obj store0 1)\<bar> < 2 ^ 53"
    by (simp add: get_obj_def store0_def chat_team_def)
  from updateLastMessage_existing_record
    [OF h1 h2 h3 h4, of "text_msg 9 bob ''group_g1'' ReceiverType_group"] h1 h2 h3 h4
  show ?thesis
    by (simp add: view_def get_obj_def store0_def chat_bob_def chat_team_def text_msg_def
        bob_def alice_def)
qed

text \<open>
  C1 (as stated) fails: the count is a JavaScript number, and at \<open>2^53\<close> adding 1
  rounds back to \<open>2^53\<close>.  A message from bob for the group conversation with
  \<open>2^53\<close> unread messages moves the record to the front and leaves its count as it is.
\<close>

theorem updateLastMessage_count_counterexample:
  "refs_ok big_store \<and> distinct (ids big_store)
   \<and> getListItem big_store (conversationId chat_team) = Some 1
   \<and> Some (uid (sender (text_msg 9 bob ''group_g1'' ReceiverType_group)))
        \<noteq> map_option uid (loggedInUser big_store)
   \<and> unreadMessageCount (get_obj big_store 1) = 9007199254740992
   \<and> view (updateLastMessage (text_msg 9 bob ''group_g1'' ReceiverType_group)
        (Inr chat_team) big_store)
     = [chat_team\<lparr>lastMessage := Some (text_msg 9 bob ''group_g1'' ReceiverType_group),
                   unreadMessageCount := 9007199254740992\<rparr>, chat_bob]"
proof -
  have h1: "refs_ok big_store" by (simp add: refs_ok_def big_store_def store0_def)
  have h2: "distinct (ids big_store)"
    by (simp add: ids_def getConversationId_def get_obj_def big_store_def store0_def
        chat_bob_def chat_team_def)
  have h3: "getListItem big_store (conversationId chat_team) = Some 1"
    by (simp add: getListItem_def getConversationId_def get_obj_def big_store_def store0_def
        chat_bob_def chat_team_def)
  from updateLastMessage_existing_general
    [OF h1 h2 h3, of "text_msg 9 bob ''group_g1'' ReceiverType_group"] h1 h2 h3
  show ?thesis
    by (simp add: view_def get_obj_def big_store_def store0_def chat_bob_def chat_team_def
        text_msg_def bob_def alice_def js_add1_sticks)
qed

section \<open>Receipts\<close>

text \<open>
  C7.  A receipt that resolves to a conversation (which for a group is one whose last
  message the logged-in user sent) whose last message has the receipt's message id:
  the handler returns normally, the record keeps its position, and the new record
  differs from the old one only in the read-at and delivered-at timestamps of the last
  message, each set when the receipt carries it; the order of ids is unchanged, and
  no object that existed before is written (the new record is a clone).
\<close>

theorem updateMessageReceipt_sets_timestamps_only:
  assumes ok: "refs_ok s"
    and rc: "receipt_conv s r = Some a"
    and lm: "lastMessage (get_obj s a) = Some lm"
    and idm: "m_id lm = r_messageId r \<or> m_messageId lm = Some (r_messageId r)"
    and own: "getConversationType (get_obj s a) = ReceiverType_group
                \<longrightarrow> map_option uid (loggedInUser s) = Some (uid (sender lm))"
  shows "\<exists>s' i. updateMessageReceipt r s = Inr s' \<and> i < length (items s) \<and> items s ! i = a
       \<and> view s' = (view s)[i := (get_obj s a)\<lparr>lastMessage := Some (lm\<lparr>
              readAt := (if truthy_num (r_readAt r) then r_readAt r else readAt lm),
              deliveredAt := (if truthy_num (r_deliveredAt r) then r_deliveredAt r
                              else deliveredAt lm)\<rparr>)\<rparr>]
       \<and> ids s' = ids s
       \<and> take (length (heap s)) (heap s') = heap s"
proof -
  from receipt_conv_Some[OF rc] obtain k where k: "getListItem s k = Some a" by blast
  from getListItem_Some[OF k] obtain i where
    i: "findIndex (\<lambda>b. getConversationId s b = k) (items s) = Some i"
    and ia: "items s ! i = a" and il: "i < length (items s)"
    and ka: "getConversationId s a = k" by blast
  define lm2 where "lm2 = lm\<lparr>
              readAt := (if truthy_num (r_readAt r) then r_readAt r else readAt lm),
              deliveredAt := (if truthy_num (r_deliveredAt r) then r_deliveredAt r
                              else deliveredAt lm)\<rparr>"
  define c' where "c' = (get_obj s a)\<lparr>lastMessage := Some lm2\<rparr>"
  have idc: "conversationId c' = k" using ka by (simp add: c'_def getConversationId_def)
  have lm2': "(if truthy_num (r_deliveredAt r)
         then (if truthy_num (r_readAt r) then lm\<lparr>readAt := r_readAt r\<rparr> else lm)
                \<lparr>deliveredAt := r_deliveredAt r\<rparr>
         else (if truthy_num (r_readAt r) then lm\<lparr>readAt := r_readAt r\<rparr> else lm)) = lm2"
    by (simp add: lm2_def)
  have run: "updateMessageReceipt r s
      = Inr (updateList (new_ref s) (set_obj (new_ref s) c' (clone a s)))"
    using rc lm idm own
    by (auto simp: updateMessageReceipt_def Let_def setLastMessage_clone lm2' c'_def)
  have v: "view (updateList (new_ref s) (set_obj (new_ref s) c' (clone a s))) = (view s)[i := c']"
    using clone_set_update(2)[OF ok i idc] .
  have "map conversationId ((view s)[i := c']) = map conversationId (view s)"
    using idc ka ia il by (simp add: map_update view_def getConversationId_def list_update_same_conv)
  with v have "ids (updateList (new_ref s) (set_obj (new_ref s) c' (clone a s))) = ids s"
    by (simp add: ids_view)
  moreover have "take (length (heap s))
      (heap (updateList (new_ref s) (set_obj (new_ref s) c' (clone a s)))) = heap s"
    unfolding clone_set_update(1)[OF ok i idc] by simp
  ultimately show ?thesis using run v ia il unfolding c'_def lm2_def by blast
qed

theorem updateMessageReceipt_sets_timestamps_only_witness:
  "refs_ok store0 \<and> receipt_conv store0 read_receipt = Some 0
   \<and> lastMessage (get_obj store0 0) = Some (text_msg 1 alice ''alice_user_bob'' ReceiverType_user)
   \<and> m_id (text_msg 1 alice ''alice_user_bob'' ReceiverType_user) = r_messageId read_receipt
   \<and> getConversationType (get_obj store0 0) = ReceiverType_user
   \<and> (\<exists>s'. updateMessageReceipt read_receipt store0 = Inr s'
         \<and> view s' = [chat_bob\<lparr>lastMessage :=
                         Some ((text_msg 1 alice ''alice_user_bob'' ReceiverType_user)
                                 \<lparr>readAt := Some 1700\<rparr>)\<rparr>, chat_team]
         \<and> ids s' = ids store0)"
proof -
  let ?lm = "text_msg 1 alice ''alice_user_bob'' ReceiverType_user"
  have h1: "refs_ok store0" by (simp add: refs_ok_def store0_def)
  have h2: "receipt_conv store0 read_receipt = Some 0"
    by (simp add: receipt_conv_def read_receipt_def getListItem_def getConversationId_def
        get_obj_def store0_def chat_bob_def chat_team_def bob_def)
  have h3: "lastMessage (get_obj store0 0) = Some ?lm"
    by (simp add: get_obj_def store0_def chat_bob_def)
  have h4: "m_id ?lm = r_messageId read_receipt \<or> m_messageId ?lm = Some (r_messageId read_receipt)"
    by (simp add: text_msg_def read_receipt_def)
  have h5: "getConversationType (get_obj store0 0) = ReceiverType_user"
    by (simp add: getConversationType_def get_obj_def store0_def chat_bob_def)
  then have h6: "getConversationType (get_obj store0 0) = ReceiverType_group
      \<longrightarrow> map_option uid (loggedInUser store0) = Some (uid (sender ?lm))" by simp
  from updateMessageReceipt_sets_timestamps_only[OF h1 h2 h3 h4 h6]
  obtain s' i where r: "updateMessageReceipt read_receipt store0 = Inr s'"
    and i: "i < length (items store0)" "items store0 ! i = 0"
    and v: "view s' = (view store0)[i := (get_obj store0 0)\<lparr>lastMessage := Some (?lm\<lparr>
              readAt := (if truthy_num (r_readAt read_receipt) then r_readAt read_receipt
                         else readAt ?lm),
              deliveredAt := (if truthy_num (r_deliveredAt read_receipt)
                              then r_deliveredAt read_receipt else deliveredAt ?lm)\<rparr>)\<rparr>]"
    and d: "ids s' = ids store0" by blast
  from i have i0: "i = 0" by (cases i) (simp_all add: store0_def)
  have "view s' = [chat_bob\<lparr>lastMessage := Some (?lm\<lparr>readAt := Some 1700\<rparr>)\<rparr>, chat_team]"
    unfolding v i0
    by (simp add: view_def get_obj_def store0_def read_receipt_def truthy_num_def text_msg_def)
  with r d h1 h2 h3 h5 show ?thesis by (simp add: text_msg_def read_receipt_def)
qed

section \<open>Typing events\<close>

text \<open>What one run of the typing handler does to a record it finds.\<close>

lemma typingEventHandler_found:
  assumes ok: "refs_ok s" and d: "distinct (ids s)"
    and f: "getConversationRefFromTypingIndicator s t = Some a"
    and lm: "lastMessage (get_obj s a) = Some lm"
  shows "\<exists>i. i < length (items s) \<and> items s ! i = a
       \<and> findIndex (\<lambda>c. typing_matches t c) (view s) = Some i
       \<and> typingEventHandler is_typing t isTyping s
          = Inr (s\<lparr>heap := heap s @ [(get_obj s a)\<lparr>lastMessage := Some (lm\<lparr>typing :=
                     (if isTyping \<and> \<not> truthy_str (typing lm)
                      then Some (if ti_receiverType t = ReceiverType_group
                                 then user_name (ti_sender t) @ '' '' @ is_typing else is_typing)
                      else None)\<rparr>)\<rparr>],
                  items := (items s)[i := new_ref s]\<rparr>)"
proof -
  from f obtain i where
    fi: "findIndex (\<lambda>item. typing_matches t (get_obj s item)) (items s) = Some i"
    and ia: "items s ! i = a" and il: "i < length (items s)"
    unfolding getConversationRefFromTypingIndicator_def getAllListItems_def
    using find_findIndex by fast
  have fv: "findIndex (\<lambda>c. typing_matches t c) (view s) = Some i"
    using fi by (simp add: view_def findIndex_map)
  from d have "distinct (map (getConversationId s) (items s))" by (simp add: ids_def)
  from findIndex_distinct_index[OF this il] ia
  have ii: "findIndex (\<lambda>b. getConversationId s b = getConversationId s a) (items s) = Some i"
    by simp
  define c' where "c' = (get_obj s a)\<lparr>lastMessage := Some (lm\<lparr>typing :=
                     (if isTyping \<and> \<not> truthy_str (typing lm)
                      then Some (if ti_receiverType t = ReceiverType_group
                                 then user_name (ti_sender t) @ '' '' @ is_typing else is_typing)
                      else None)\<rparr>)\<rparr>"
  have idc: "conversationId c' = getConversationId s a"
    by (simp add: c'_def getConversationId_def)
  have run: "typingEventHandler is_typing t isTyping s
      = Inr (updateList (new_ref s) (set_obj (new_ref s) c' (clone a s)))"
    using f lm
    by (simp add: typingEventHandler_def Let_def get_obj_clone_new setLastMessage_clone c'_def)
  from clone_set_update(1)[OF ok ii idc] run il ia fv show ?thesis
    unfolding c'_def by auto
qed

text \<open>
  C10.  The typing-started handler toggles and so is not idempotent.  When the
  conversation a typing indicator resolves to already shows a (non-empty) typing
  annotation, a typing-started event clears the annotation instead of leaving it set.
  Starting from a conversation without annotation (and a non-empty localized "is typing"
  text), the first typing-started event sets the annotation and the second one clears
  it, so the state after two events differs from the state after one and shows no
  typing annotation.
\<close>

theorem typingEventHandler_started_toggles:
  assumes ok: "refs_ok s" and d: "distinct (ids s)"
    and f: "getConversationRefFromTypingIndicator s t = Some a"
    and lm: "lastMessage (get_obj s a) = Some lm"
  shows "(truthy_str (typing lm) \<longrightarrow>
           (\<exists>s' i. typingEventHandler is_typing t True s = Inr s' \<and> i < length (items s)
              \<and> items s ! i = a
              \<and> view s' = (view s)[i := (get_obj s a)\<lparr>lastMessage := Some (lm\<lparr>typing := None\<rparr>)\<rparr>]))
       \<and> (\<not> truthy_str (typing lm) \<and> is_typing \<noteq> [] \<longrightarrow>
           (\<exists>s1 s2 i. typingEventHandler is_typing t True s = Inr s1
              \<and> typingEventHandler is_typing t True s1 = Inr s2 \<and> i < length (items s)
              \<and> items s ! i = a
              \<and> view s1 = (view s)[i := (get_obj s a)\<lparr>lastMessage := Some (lm\<lparr>typing :=
                     Some (if ti_receiverType t = ReceiverType_group
                           then user_name (ti_sender t) @ '' '' @ is_typing else is_typing)\<rparr>)\<rparr>]
              \<and> view s2 = (view s)[i := (get_obj s a)\<lparr>lastMessage := Some (lm\<lparr>typing := None\<rparr>)\<rparr>]
              \<and> view s2 \<noteq> view s1))"
proof (intro conjI impI)
  assume tr: "truthy_str (typing lm)"
  from typingEventHandler_found[OF ok d f lm, of is_typing True] obtain i where
    il: "i < length (items s)" and ia: "items s ! i = a"
    and run: "typingEventHandler is_typing t True s
          = Inr (s\<lparr>heap := heap s @ [(get_obj s a)\<lparr>lastMessage := Some (lm\<lparr>typing := None\<rparr>)\<rparr>],
                  items := (items s)[i := new_ref s]\<rparr>)"
    using tr by auto
  from view_after_clone_update[OF ok il] run il ia
  show "\<exists>s' i. typingEventHandler is_typing t True s = Inr s' \<and> i < length (items s)
              \<and> items s ! i = a
              \<and> view s' = (view s)[i := (get_obj s a)\<lparr>lastMessage := Some (lm\<lparr>typing := None\<rparr>)\<rparr>]"
    by blast
next
  assume "\<not> truthy_str (typing lm) \<and> is_typing \<noteq> []"
  then have ntr: "\<not> truthy_str (typing lm)" and is_typing: "is_typing \<noteq> []" by simp_all
  define shown where "shown = (if ti_receiverType t = ReceiverType_group
                                 then user_name (ti_sender t) @ '' '' @ is_typing else is_typing)"
  have shown: "shown \<noteq> []" using is_typing by (simp add: shown_def)
  define lm1 where "lm1 = lm\<lparr>typing := Some shown\<rparr>"
  define c1 where "c1 = (get_obj s a)\<lparr>lastMessage := Some lm1\<rparr>"
  from typingEventHandler_found[OF ok d f lm, of is_typing True] obtain i where
    il: "i < length (items s)" and ia: "items s ! i = a"
    and fv: "findIndex (\<lambda>c. typing_matches t c) (view s) = Some i"
    and run1: "typingEventHandler is_typing t True s
          = Inr (s\<lparr>heap := heap s @ [c1], items := (items s)[i := new_ref s]\<rparr>)"
    using ntr by (auto simp: c1_def lm1_def shown_def)
  define s1 where "s1 = s\<lparr>heap := heap s @ [c1], items := (items s)[i := new_ref s]\<rparr>"
  have v1: "view s1 = (view s)[i := c1]"
    unfolding s1_def by (rule view_after_clone_update[OF ok il])
  have ok1: "refs_ok s1" unfolding s1_def by (rule refs_ok_after_clone_update[OF ok])
  have vi: "view s ! i = get_obj s a" using il ia by (simp add: view_def)
  have idc1: "conversationId c1 = conversationId (view s ! i)" by (simp add: c1_def vi)
  have lv: "length (view s) = length (items s)" by (simp add: view_def)
  have "map conversationId ((view s)[i := c1]) = map conversationId (view s)"
    using il lv idc1 by (simp add: map_update list_update_same_conv)
  then have "ids s1 = ids s" by (simp add: ids_view v1)
  with d have d1: "distinct (ids s1)" by simp
  have tm: "typing_matches t c1 = typing_matches t (view s ! i)"
    by (simp add: typing_matches_def getConversationType_def c1_def vi)
  have "findIndex (\<lambda>c. typing_matches t c) (view s1) = Some i"
    unfolding v1 using findIndex_update_same[of i "view s" "typing_matches t" c1] il lv tm fv
    by simp
  then have fi1: "findIndex (\<lambda>item. typing_matches t (get_obj s1 item)) (items s1) = Some i"
    by (simp add: view_def findIndex_map)
  have b: "items s1 ! i = new_ref s" using il by (simp add: s1_def)
  from findIndex_find[OF fi1] b
  have f1: "getConversationRefFromTypingIndicator s1 t = Some (new_ref s)"
    by (simp add: getConversationRefFromTypingIndicator_def getAllListItems_def)
  have g1: "get_obj s1 (new_ref s) = c1" by (simp add: s1_def get_obj_def new_ref_def)
  then have l1: "lastMessage (get_obj s1 (new_ref s)) = Some lm1" by (simp add: c1_def)
  have tr1: "truthy_str (typing lm1)" using shown by (simp add: lm1_def truthy_str_def)
  from typingEventHandler_found[OF ok1 d1 f1 l1, of is_typing True] obtain i' where
    il': "i' < length (items s1)" and ia': "items s1 ! i' = new_ref s"
    and fv': "findIndex (\<lambda>c. typing_matches t c) (view s1) = Some i'"
    and run2: "typingEventHandler is_typing t True s1
          = Inr (s1\<lparr>heap := heap s1 @ [(get_obj s1 (new_ref s))\<lparr>lastMessage := Some (lm1\<lparr>typing := None\<rparr>)\<rparr>],
                  items := (items s1)[i' := new_ref s1]\<rparr>)"
    using tr1 by auto
  from fv' \<open>findIndex (\<lambda>c. typing_matches t c) (view s1) = Some i\<close> have ii: "i' = i" by simp
  have c2: "(get_obj s1 (new_ref s))\<lparr>lastMessage := Some (lm1\<lparr>typing := None\<rparr>)\<rparr>
      = (get_obj s a)\<lparr>lastMessage := Some (lm\<lparr>typing := None\<rparr>)\<rparr>"
    by (simp add: g1 c1_def lm1_def)
  have "view (s1\<lparr>heap := heap s1 @ [(get_obj s a)\<lparr>lastMessage := Some (lm\<lparr>typing := None\<rparr>)\<rparr>],
                  items := (items s1)[i := new_ref s1]\<rparr>)
      = (view s)[i := (get_obj s a)\<lparr>lastMessage := Some (lm\<lparr>typing := None\<rparr>)\<rparr>]"
    using view_after_clone_update[OF ok1, of i] il v1 by (simp add: s1_def)
  then have v2: "view (s1\<lparr>heap := heap s1 @ [(get_obj s a)\<lparr>lastMessage := Some (lm\<lparr>typing := None\<rparr>)\<rparr>],
                  items := (items s1)[i := new_ref s1]\<rparr>)
      = (view s)[i := (get_obj s a)\<lparr>lastMessage := Some (lm\<lparr>typing := None\<rparr>)\<rparr>]" .
  have v1': "view s1 = (view s)[i := (get_obj s a)\<lparr>lastMessage := Some (lm\<lparr>typing := Some shown\<rparr>)\<rparr>]"
    using v1 by (simp add: c1_def lm1_def)
  have "(view s)[i := (get_obj s a)\<lparr>lastMessage := Some (lm\<lparr>typing := None\<rparr>)\<rparr>] ! i
      \<noteq> (view s)[i := (get_obj s a)\<lparr>lastMessage := Some (lm\<lparr>typing := Some shown\<rparr>)\<rparr>] ! i"
  proof -
    have "lm\<lparr>typing := None\<rparr> \<noteq> lm\<lparr>typing := Some shown\<rparr>"
    proof
      assume "lm\<lparr>typing := None\<rparr> = lm\<lparr>typing := Some shown\<rparr>"
      then have "typing (lm\<lparr>typing := None\<rparr>) = typing (lm\<lparr>typing := Some shown\<rparr>)" by simp
      then show False by simp
    qed
    then have "(get_obj s a)\<lparr>lastMessage := Some (lm\<lparr>typing := None\<rparr>)\<rparr>
        \<noteq> (get_obj s a)\<lparr>lastMessage := Some (lm\<lparr>typing := Some shown\<rparr>)\<rparr>"
    proof -
      assume ne: "lm\<lparr>typing := None\<rparr> \<noteq> lm\<lparr>typing := Some shown\<rparr>"
      show ?thesis
      proof
        assume "(get_obj s a)\<lparr>lastMessage := Some (lm\<lparr>typing := None\<rparr>)\<rparr>
          = (get_obj s a)\<lparr>lastMessage := Some (lm\<lparr>typing := Some shown\<rparr>)\<rparr>"
        then have "lastMessage ((get_obj s a)\<lparr>lastMessage := Some (lm\<lparr>typing := None\<rparr>)\<rparr>)
          = lastMessage ((get_obj s a)\<lparr>lastMessage := Some (lm\<lparr>typing := Some shown\<rparr>)\<rparr>)"
          by (rule arg_cong)
        with ne show False by simp
      qed
    qed
    with il lv show ?thesis by simp
  qed
  then have ne: "(view s)[i := (get_obj s a)\<lparr>lastMessage := Some (lm\<lparr>typing := None\<rparr>)\<rparr>]
      \<noteq> (view s)[i := (get_obj s a)\<lparr>lastMessage := Some (lm\<lparr>typing := Some shown\<rparr>)\<rparr>]"
    by auto
  from run1 run2 il ia v1' v2 ne
  show "\<exists>s1 s2 i. typingEventHandler is_typing t True s = Inr s1
              \<and> typingEventHandler is_typing t True s1 = Inr s2 \<and> i < length (items s)
              \<and> items s ! i = a
              \<and> view s1 = (view s)[i := (get_obj s a)\<lparr>lastMessage := Some (lm\<lparr>typing :=
                     Some (if ti_receiverType t = ReceiverType_group
                           then user_name (ti_sender t) @ '' '' @ is_typing else is_typing)\<rparr>)\<rparr>]
              \<and> view s2 = (view s)[i := (get_obj s a)\<lparr>lastMessage := Some (lm\<lparr>typing := None\<rparr>)\<rparr>]
              \<and> view s2 \<noteq> view s1"
    unfolding s1_def[symmetric] c2 ii shown_def
    by (intro exI[of _ s1] exI[of _ "s1\<lparr>heap := heap s1 @ [(get_obj s a)\<lparr>lastMessage := Some (lm\<lparr>typing := None\<rparr>)\<rparr>],
                  items := (items s1)[i := new_ref s1]\<rparr>"] exI[of _ i]) simp
qed

theorem typingEventHandler_started_toggles_witness:
  "refs_ok store0 \<and> distinct (ids store0)
   \<and> getConversationRefFromTypingIndicator store0 bob_typing = Some 0
   \<and> \<not> truthy_str (typing (text_msg 1 alice ''alice_user_bob'' ReceiverType_user))
   \<and> (\<exists>s1 s2. typingEventHandler ''is typing...'' bob_typing True store0 = Inr s1
          \<and> typingEventHandler ''is typing...'' bob_typing True s1 = Inr s2
          \<and> view s1 = view typing_store
          \<and> view s2 = [chat_bob, chat_team]
          \<and> view s2 \<noteq> view s1)
   \<and> refs_ok typing_store \<and> distinct (ids typing_store)
   \<and> getConversationRefFromTypingIndicator typing_store bob_typing = Some 0
   \<and> truthy_str (typing ((text_msg 1 alice ''alice_user_bob'' ReceiverType_user)
                            \<lparr>typing := Some ''is typing...''\<rparr>))
   \<and> (\<exists>s'. typingEventHandler ''is typing...'' bob_typing True typing_store = Inr s'
          \<and> view s' = [chat_bob, chat_team])"
proof -
  let ?lm = "text_msg 1 alice ''alice_user_bob'' ReceiverType_user"
  let ?lmt = "?lm\<lparr>typing := Some ''is typing...''\<rparr>"
  have a1: "refs_ok store0" by (simp add: refs_ok_def store0_def)
  have a2: "distinct (ids store0)"
    by (simp add: ids_def getConversationId_def get_obj_def store0_def chat_bob_def chat_team_def)
  have a3: "getConversationRefFromTypingIndicator store0 bob_typing = Some 0"
    by (simp add: getConversationRefFromTypingIndicator_def getAllListItems_def
        typing_matches_def getConversationType_def get_obj_def store0_def chat_bob_def
        chat_team_def bob_typing_def bob_def)
  have a4: "lastMessage (get_obj store0 0) = Some ?lm"
    by (simp add: get_obj_def store0_def chat_bob_def)
  have a5: "\<not> truthy_str (typing ?lm)" by (simp add: truthy_str_def text_msg_def)
  have b1: "refs_ok typing_store" by (simp add: refs_ok_def typing_store_def store0_def)
  have b2: "distinct (ids typing_store)"
    by (simp add: ids_def getConversationId_def get_obj_def typing_store_def store0_def
        chat_bob_def chat_team_def)
  have b3: "getConversationRefFromTypingIndicator typing_store bob_typing = Some 0"
    by (simp add: getConversationRefFromTypingIndicator_def getAllListItems_def
        typing_matches_def getConversationType_def get_obj_def typing_store_def store0_def
        chat_bob_def chat_team_def bob_typing_def bob_def)
  have b4: "lastMessage (get_obj typing_store 0) = Some ?lmt"
    by (simp add: get_obj_def typing_store_def store0_def chat_bob_def)
  have b5: "truthy_str (typing ?lmt)" by (simp add: truthy_str_def)
  have same: "?lmt\<lparr>typing := None\<rparr> = ?lm" "?lm\<lparr>typing := None\<rparr> = ?lm"
    by (simp_all add: text_msg_def)
  have user: "ti_receiverType bob_typing \<noteq> ReceiverType_group" by (simp add: bob_typing_def)
  from typingEventHandler_started_toggles[OF a1 a2 a3 a4, of "''is typing...''"] a5
  obtain s1 s2 i where r1: "typingEventHandler ''is typing...'' bob_typing True store0 = Inr s1"
    "typingEventHandler ''is typing...'' bob_typing True s1 = Inr s2"
    and i: "i < length (items store0)" "items store0 ! i = 0"
    and v1: "view s1 = (view store0)[i := (get_obj store0 0)\<lparr>lastMessage := Some (?lm\<lparr>typing :=
                     Some (if ti_receiverType bob_typing = ReceiverType_group
                           then user_name (ti_sender bob_typing) @ '' '' @ ''is typing...''
                           else ''is typing...'')\<rparr>)\<rparr>]"
    and v2: "view s2 = (view store0)[i := (get_obj store0 0)\<lparr>lastMessage := Some (?lm\<lparr>typing := None\<rparr>)\<rparr>]"
    and ne: "view s2 \<noteq> view s1"
    by auto
  from i have i0: "i = 0" by (cases i) (simp_all add: store0_def)
  have v1': "view s1 = view typing_store"
    unfolding v1 i0 using user
    by (simp add: view_def get_obj_def typing_store_def store0_def chat_bob_def)
  have v2': "view s2 = [chat_bob, chat_team]"
    unfolding v2 i0 same by (simp add: view_def get_obj_def store0_def chat_bob_def)
  from typingEventHandler_started_toggles[OF b1 b2 b3 b4, of "''is typing...''"] b5
  obtain s' j where r2: "typingEventHandler ''is typing...'' bob_typing True typing_store = Inr s'"
    and j: "j < length (items typing_store)" "items typing_store ! j = 0"
    and v: "view s' = (view typing_store)[j := (get_obj typing_store 0)\<lparr>lastMessage := Some (?lmt\<lparr>typing := None\<rparr>)\<rparr>]"
    by auto
  from j have j0: "j = 0" by (cases j) (simp_all add: typing_store_def store0_def)
  have v': "view s' = [chat_bob, chat_team]"
    unfolding v j0 same by (simp add: view_def get_obj_def typing_store_def store0_def chat_bob_def)
  from r1 v1' v2' ne have p2: "\<exists>s1 s2. typingEventHandler ''is typing...'' bob_typing True store0 = Inr s1
          \<and> typingEventHandler ''is typing...'' bob_typing True s1 = Inr s2
          \<and> view s1 = view typing_store
          \<and> view s2 = [chat_bob, chat_team]
          \<and> view s2 \<noteq> view s1" by blast
  from r2 v' have p1: "\<exists>s'. typingEventHandler ''is typing...'' bob_typing True typing_store = Inr s'
          \<and> view s' = [chat_bob, chat_team]" by blast
  from a1 a2 a3 a5 b1 b2 b3 b5 p1 p2 show ?thesis by simp
qed

section \<open>Nothing is ever selected\<close>





section \<open>Deleting a conversation\<close>




section \<open>The logged-in user is kicked, banned or leaves\<close>




section \<open>Where the handlers differ from the specification\<close>

text \<open>
  C3.  A failed derivation leaves the store unchanged, but it reaches \<open>onError\<close> only
  in some handlers.  The continuation of \<open>updateLastMessage\<close> logs it to the console,
  and the one of \<open>groupHandler\<close> has no \<open>.catch\<close> at all; in neither is \<open>onError\<close>
  called, although the callback was passed.  The second derivation of
  \<open>updateLastMessage\<close> and the call listeners, by contrast, do call it.
\<close>

theorem derivation_failure_not_surfaced:
  "updateLastMessage m (Inl e) s = s\<lparr>console := console s @ [e]\<rparr>
   \<and> onErrorCalls (updateLastMessage m (Inl e) s) = onErrorCalls s
   \<and> groupHandler_then st m (Inl e) s = Inr (s\<lparr>unhandled := unhandled s @ [e]\<rparr>)
   \<and> updateLastMessage_add (p\<lparr>onError := True\<rparr>) (Inl e) s
        = s\<lparr>onErrorCalls := onErrorCalls s @ [e]\<rparr>
   \<and> onIncomingCallReceived st (p\<lparr>onError := True\<rparr>) m (Inl e) s
        = s\<lparr>onErrorCalls := onErrorCalls s @ [e]\<rparr>"
  by (simp add: updateLastMessage_def groupHandler_then_def updateLastMessage_add_def
      onIncomingCallReceived_def call_onError_def)

text \<open>
  C4.  Three handlers call a setter on the object they got from the store lookup.
  In \<open>store0\<close> the group conversation is the object at address 1.  \<open>groupHandler\<close>
  writes the new last message into that object and hands the same object back;
  \<open>updateUnreadMessageCount\<close> increments its unread count in place and returns it;
  \<open>updateLastMessage\<close> writes both fields into it before it clones.
  \<open>updateConversationLastMessage\<close> clones first and leaves the object as it was.
\<close>

theorem handlers_write_into_stored_object:
  "groupHandler all_on (action_msg 5 bob) no_details store0
     = Inr (store0\<lparr>heap := [chat_bob, chat_team\<lparr>lastMessage := Some (action_msg 5 bob)\<rparr>]\<rparr>)
   \<and> updateUnreadMessageCount chat_team store0
     = (1, store0\<lparr>heap := [chat_bob, chat_team\<lparr>unreadMessageCount := 4\<rparr>]\<rparr>)
   \<and> get_obj (updateLastMessage (action_msg 5 bob) (Inr chat_team) store0) 1
     = chat_team\<lparr>lastMessage := Some (action_msg 5 bob), unreadMessageCount := 4\<rparr>
   \<and> get_obj (updateConversationLastMessage (action_msg 5 bob) team store0) 1 = chat_team"
  by (simp add: groupHandler_def is_removal_def Let_def updateList_def no_details_def
      updateUnreadMessageCount_def updateLastMessage_def updateConversationLastMessage_def
      updateAndMoveToFirst_def clone_def alloc_def new_ref_def splice1_def
      setLastMessage_def setUnreadMessageCount_def setConversationWith_def set_obj_def
      getListItem_def getConversationId_def getConversationType_def get_obj_def
      store0_def chat_bob_def chat_team_def action_msg_def text_msg_def all_on_def
      alice_def bob_def js_add1_exact)

text \<open>
  C5.  An event for a user with no conversation in the store is not a silent no-op in
  two handlers: the presence handler and the block handler (when blocked users are not
  included) dereference the missing item and throw a TypeError.  The unblock handler
  tests the item first and does nothing.
\<close>

theorem unresolved_user_event_throws:
  "user_item store0 (uid carol) = None
   \<and> userEventHandler carol store0 = Inl TypeError
   \<and> ccUserBlocked props0 rd carol store0 = Inl TypeError
   \<and> ccUserUnBlocked carol store0 = store0"
  by (simp add: userEventHandler_def ccUserBlocked_def ccUserUnBlocked_def user_item_def
      loggedInUid_text_def getListItem_def getConversationId_def get_obj_def Let_def
      store0_def chat_bob_def chat_team_def carol_def alice_def props0_def)

text \<open>
  C9.  The cleanup of the mount effect removes seven of the eight listeners (the call
  listener on the UI event handler stays registered) and does not clear the debounce
  timer: a member-added task scheduled before the unmount is still scheduled after it.
\<close>

theorem cleanup_leaves_listener_and_timer:
  "listeners (mount store0)
     = [UI_CallListener, UI_UserListener, UI_GroupListener, UI_MessageListener,
        UI_ConversationListener, SDK_GroupListener, SDK_CallListener, SDK_UserListener]
   \<and> listeners (cleanup (mount store0)) = [UI_CallListener]
   \<and> timer (cleanup (onMemberAddedToGroup (action_msg 5 bob) carol bob team (mount store0)))
     = timer (onMemberAddedToGroup (action_msg 5 bob) carol bob team (mount store0))
   \<and> timer (cleanup (onMemberAddedToGroup (action_msg 5 bob) carol bob team (mount store0)))
     \<noteq> None"
  by (simp add: cleanup_def mount_def addListener_def removeListener_def
      onMemberAddedToGroup_def store0_def)

end
